theory Spec2Isabelle
  imports Main
begin

section \<open>The support program: data model\<close>

text \<open>
  The program is one Python file, \<^verbatim>\<open>main.py\<close>. It configures four agents, three tools
  with availability predicates and one output guardrail, and runs a console loop that
  hands every message to the runner of the imported \<^verbatim>\<open>agents\<close> library. That library is
  not part of the program: wherever the program calls it, the model takes its answer as
  a parameter.

  Python strings are modelled as byte strings in UTF-8; the few characters of the
  source outside ASCII are written as their bytes.
\<close>

definition check_mark :: string where
  "check_mark = [CHR 0xE2, CHR 0x9C, CHR 0x85]"

definition en_dash :: string where
  "en_dash = [CHR 0xE2, CHR 0x80, CHR 0x93]"

definition em_dash :: string where
  "em_dash = [CHR 0xE2, CHR 0x80, CHR 0x94]"

definition info_sign :: string where
  "info_sign = [CHR 0xF0, CHR 0x9F, CHR 0x9B, CHR 0x88]"

definition apostrophe :: string where
  "apostrophe = [CHR 0xE2, CHR 0x80, CHR 0x99]"

definition bullet :: string where
  "bullet = [CHR 0xE2, CHR 0x80, CHR 0xA2]"

definition quote :: string where
  "quote = [CHR 0x27]"

definition newline :: string where
  "newline = [CHR 0x0A]"

text \<open>The one word the guardrail agent is told to look for.\<close>

definition apology_word :: string where
  "apology_word = [CHR ''s'', CHR ''o'', CHR ''r'', CHR ''r'', CHR ''y'']"

text \<open>\<^verbatim>\<open>class AgentResponse(BaseModel): response: str\<close>\<close>

record AgentResponse =
  response :: string

text \<open>
  \<^verbatim>\<open>class SupportContext(BaseModel)\<close>: \<^verbatim>\<open>is_premium_user\<close> defaults to False and
  \<^verbatim>\<open>issue_type\<close> to None.
\<close>

record SupportContext =
  name :: string
  is_premium_user :: bool
  issue_type :: "string option"

definition new_SupportContext :: "string \<Rightarrow> bool \<Rightarrow> SupportContext" where
  "new_SupportContext n p = \<lparr>name = n, is_premium_user = p, issue_type = None\<rparr>"

text \<open>\<^verbatim>\<open>class ApologyCheckOutput(BaseModel): has_apology: bool; reasoning: str\<close>\<close>

record ApologyCheckOutput =
  has_apology :: bool
  reasoning :: string

text \<open>The dictionary an output guardrail returns.\<close>

record GuardrailFunctionOutput =
  output_info :: ApologyCheckOutput
  tripwire_triggered :: bool

text \<open>The wrapper the library passes to a guardrail; the program reads its \<^verbatim>\<open>context\<close>.\<close>

record RunContextWrapper =
  wrapped_context :: SupportContext

text \<open>Exceptions: the end of the console input, and whatever the library raises.\<close>

datatype exn = EOFError | AgentsException string

datatype out_type = AgentResponse_type | ApologyCheckOutput_type

datatype output_guardrail = No_apology_guardrail

datatype Agent = Agent
  (agent_name: string)
  (model: string)
  (instructions: string)
  (output_type: out_type)
  (output_guardrails: "output_guardrail list")
  (handoffs: "Agent list")

definition model_name :: string where
  "model_name = ''gemini-2.5-flash''"

section \<open>The output guardrail\<close>

definition apology_guardrail_agent :: Agent where
  "apology_guardrail_agent = Agent ''Apology Guardrail'' model_name
     (''Inspect the given text and determine if it contains any apology '' @
      ''language (the word '' @ quote @ apology_word @ quote @ ''). Return JSON with keys:'' @ newline @
      ''- has_apology: true if any apology found, else false'' @ newline @
      ''- reasoning: brief justification.'')
     ApologyCheckOutput_type [] []"

text \<open>
  \<^verbatim>\<open>Runner.run(agent, input, context=...)\<close> belongs to the library: a parameter \<open>run\<close>
  that returns the run's \<^verbatim>\<open>final_output\<close> or raises.
\<close>

type_synonym runner_run = "Agent \<Rightarrow> string \<Rightarrow> SupportContext \<Rightarrow> exn + ApologyCheckOutput"

definition no_apology_guardrail ::
  "runner_run \<Rightarrow> RunContextWrapper \<Rightarrow> Agent \<Rightarrow> AgentResponse \<Rightarrow> exn + GuardrailFunctionOutput" where
  "no_apology_guardrail run ctx agent output =
     (case run apology_guardrail_agent (response output) (wrapped_context ctx) of
        Inl e \<Rightarrow> Inl e
      | Inr final_output \<Rightarrow>
          Inr \<lparr>output_info = final_output, tripwire_triggered = has_apology final_output\<rparr>)"

text \<open>A verdict passes when the tripwire stays untouched.\<close>

definition passed :: "GuardrailFunctionOutput \<Rightarrow> bool" where
  "passed g = (\<not> tripwire_triggered g)"

section \<open>Tools with conditional availability\<close>

datatype tool = Refund | Restart_service | General_info

type_synonym payload = "(string \<times> string) list"

text \<open>
  A handler reads the context and returns a dictionary. The context is passed by
  reference in Python, so the model returns it next to the result.
\<close>

definition refund :: "SupportContext \<Rightarrow> SupportContext \<times> payload" where
  "refund ctx = (ctx, [(''message'',
     check_mark @ '' Refund for '' @ name ctx @ '' initiated; expect 3'' @ en_dash @
     ''5 business days.'')])"

definition restart_service :: "SupportContext \<Rightarrow> SupportContext \<times> payload" where
  "restart_service ctx = (ctx, [(''message'',
     check_mark @ '' Service for '' @ name ctx @ '' restarted successfully.'')])"

definition general_info :: "SupportContext \<Rightarrow> SupportContext \<times> payload" where
  "general_info ctx = (ctx, [(''message'',
     info_sign @ '' How else can I assist'' @ em_dash @ ''billing, technical, or general?'')])"

fun handler :: "tool \<Rightarrow> SupportContext \<Rightarrow> SupportContext \<times> payload" where
  "handler Refund = refund"
| "handler Restart_service = restart_service"
| "handler General_info = general_info"

text \<open>The \<^verbatim>\<open>is_enabled\<close> attribute of each tool.\<close>

fun is_enabled :: "tool \<Rightarrow> SupportContext \<Rightarrow> bool" where
  "is_enabled Refund ctx = is_premium_user ctx"
| "is_enabled Restart_service ctx = (issue_type ctx = Some ''technical'')"
| "is_enabled General_info ctx = True"

section \<open>Agents\<close>

definition billing_agent :: Agent where
  "billing_agent = Agent ''Billing Agent'' model_name
     ''You are the Billing Specialist. Handle refunds, invoices, subscriptions.''
     AgentResponse_type [No_apology_guardrail] []"

definition technical_agent :: Agent where
  "technical_agent = Agent ''Technical Agent'' model_name
     ''You are the Technical Specialist. Assist with restarts, connectivity, errors.''
     AgentResponse_type [No_apology_guardrail] []"

definition general_agent :: Agent where
  "general_agent = Agent ''General Agent'' model_name
     ''You are the General Support Agent. Answer any general inquiries.''
     AgentResponse_type [No_apology_guardrail] []"

definition triage_agent :: Agent where
  "triage_agent = Agent ''Triage Agent'' model_name
     (''You are the FIRST POINT OF CONTACT. Classify the user'' @ apostrophe @
      ''s issue as billing, technical, '' @
      ''or general, then delegate by calling exactly one of:'' @ newline @
      ''  '' @ bullet @ '' transfer_to_billing_agent'' @ newline @
      ''  '' @ bullet @ '' transfer_to_technical_agent'' @ newline @
      ''  '' @ bullet @ '' transfer_to_general_agent'')
     AgentResponse_type [No_apology_guardrail]
     [billing_agent, technical_agent, general_agent]"

section \<open>Capability gating\<close>

text \<open>The list \<^verbatim>\<open>main\<close> passes as \<^verbatim>\<open>tools=\<close> with every run.\<close>

definition main_tools :: "tool list" where
  "main_tools = [Refund, Restart_service, General_info]"

text \<open>
  No \<^verbatim>\<open>Agent(...)\<close> call of the program has a \<^verbatim>\<open>tools\<close> argument: no agent declares
  capabilities of its own.
\<close>

definition declared_capabilities :: "Agent \<Rightarrow> tool list" where
  "declared_capabilities a = []"

text \<open>
  Modelled from the spec: the gated capability view (section 4.2). The predicates are
  evaluated by the runner of the imported \<^verbatim>\<open>agents\<close> library, which is not in
  the source. Of the capabilities on offer, the view keeps those whose
  \<^verbatim>\<open>is_enabled\<close> predicate holds on the context at that instant.
\<close>

definition gated_view :: "SupportContext \<Rightarrow> tool list \<Rightarrow> tool list" where
  "gated_view ctx caps = filter (\<lambda>c. is_enabled c ctx) caps"

text \<open>
  The view offered on behalf of agent \<open>a\<close> in a run started by \<^verbatim>\<open>main\<close>: the
  capabilities on offer are the agent's own and the list passed with the run.
\<close>

definition offered_view :: "SupportContext \<Rightarrow> Agent \<Rightarrow> tool list" where
  "offered_view ctx a = gated_view ctx (declared_capabilities a @ main_tools)"

text \<open>
  Modelled from the spec: the capability invocation contract (section 6), carried out by
  the same absent runner. A requested capability outside the current view is rejected;
  one inside it has its handler called. The failures are the error taxonomy of
  section 7.
\<close>

datatype failure =
    ClassificationError
  | CapabilityViolation
  | OutputShapeError
  | GuardrailFailure string
  | ProviderError

definition invoke_capability ::
  "SupportContext \<Rightarrow> tool list \<Rightarrow> tool \<Rightarrow> failure + SupportContext \<times> payload" where
  "invoke_capability ctx view t = (if t \<in> set view then Inr (handler t ctx) else Inl CapabilityViolation)"

section \<open>The console loop\<close>

text \<open>\<^verbatim>\<open>str.strip()\<close> and \<^verbatim>\<open>str.lower()\<close> on ASCII; other bytes are left as they are.\<close>

definition is_space :: "char \<Rightarrow> bool" where
  "is_space c = (let n = (of_char c :: nat) in (9 \<le> n \<and> n \<le> 13) \<or> (28 \<le> n \<and> n \<le> 32))"

definition strip :: "string \<Rightarrow> string" where
  "strip s = rev (dropWhile is_space (rev (dropWhile is_space s)))"

definition lower_char :: "char \<Rightarrow> char" where
  "lower_char c = (let n = (of_char c :: nat) in if 65 \<le> n \<and> n \<le> 90 then char_of (n + 32) else c)"

definition lower :: "string \<Rightarrow> string" where
  "lower s = map lower_char s"

definition startswith :: "string \<Rightarrow> string \<Rightarrow> bool" where
  "startswith s p = (take (length p) s = p)"

record RunConfig =
  stream :: bool

text \<open>
  What the library does with a streamed run is outside the program. Its answer to
  \<^verbatim>\<open>run_streamed\<close> is a parameter: the calls it makes back into the program (tool
  handlers and the guardrail), the events it streams, and the exception that ends the
  stream, if any.
\<close>

datatype callback = Call_tool tool | Call_guardrail Agent AgentResponse

record 'e RunResultStreaming =
  callbacks :: "callback list"
  stream_events :: "'e list"
  raised :: "exn option"

type_synonym 'e runner_run_streamed =
  "Agent \<Rightarrow> string \<Rightarrow> SupportContext \<Rightarrow> RunConfig \<Rightarrow> tool list \<Rightarrow> exn + 'e RunResultStreaming"

text \<open>The steps of the program's own code, each logged with the context after it.\<close>

datatype action =
    Assign_issue_type "string option"
  | Run_streamed Agent string SupportContext RunConfig "tool list"
  | Tool_called tool payload
  | Guardrail_called Agent AgentResponse "exn + GuardrailFunctionOutput"

datatype 'e console_item = Text string | Event_line 'e

type_synonym trace = "(action \<times> SupportContext) list"

fun exec_callbacks :: "runner_run \<Rightarrow> SupportContext \<Rightarrow> callback list \<Rightarrow> trace \<times> SupportContext" where
  "exec_callbacks run ctx [] = ([], ctx)"
| "exec_callbacks run ctx (Call_tool t # cs) =
     (let (ctx', p) = handler t ctx;
          (log, ctx'') = exec_callbacks run ctx' cs
      in ((Tool_called t p, ctx') # log, ctx''))"
| "exec_callbacks run ctx (Call_guardrail a out # cs) =
     (let r = no_apology_guardrail run \<lparr>wrapped_context = ctx\<rparr> a out;
          (log, ctx') = exec_callbacks run ctx cs
      in ((Guardrail_called a out r, ctx) # log, ctx'))"

definition triage_banner :: string where
  "triage_banner = newline @ ''[ '' @ [CHR 0xF0, CHR 0x9F, CHR 0xA7, CHR 0xA0] @
     '' Triage in progress'' @ [CHR 0xE2, CHR 0x80, CHR 0xA6] @ '' ]''"

text \<open>
  One pass through the loop body after the exit test (lines 162 to 178): the reset, the
  streamed run, and the printing of every event in the order of the stream.
\<close>

definition request ::
  "runner_run \<Rightarrow> 'e runner_run_streamed \<Rightarrow> SupportContext \<Rightarrow> string \<Rightarrow>
     'e console_item list \<times> trace \<times> SupportContext \<times> exn option" where
  "request run run_streamed ctx msg =
     (let ctx1 = ctx\<lparr>issue_type := None\<rparr>;
          config = \<lparr>stream = True\<rparr>;
          pre = [(Assign_issue_type None, ctx1),
                 (Run_streamed triage_agent msg ctx1 config main_tools, ctx1)]
      in case run_streamed triage_agent msg ctx1 config main_tools of
           Inl e \<Rightarrow> ([Text triage_banner], pre, ctx1, Some e)
         | Inr result \<Rightarrow>
             (let (log, ctx2) = exec_callbacks run ctx1 (callbacks result)
              in (Text triage_banner # map Event_line (stream_events result),
                  pre @ log, ctx2, raised result)))"

definition msg_prompt :: string where
  "msg_prompt = newline @ [CHR 0xF0, CHR 0x9F, CHR 0x92, CHR 0xAC] @ '' How can I help you? ''"

definition goodbye :: string where
  "goodbye = [CHR 0xF0, CHR 0x9F, CHR 0x91, CHR 0x8B] @ '' Goodbye!''"

text \<open>
  The \<^verbatim>\<open>while True\<close> loop over the lines of the console input. Reading past the last
  line raises EOFError.
\<close>

fun main_loop ::
  "runner_run \<Rightarrow> 'e runner_run_streamed \<Rightarrow> SupportContext \<Rightarrow> string list \<Rightarrow>
     'e console_item list \<times> trace \<times> SupportContext \<times> exn option" where
  "main_loop run run_streamed ctx [] = ([Text msg_prompt], [], ctx, Some EOFError)"
| "main_loop run run_streamed ctx (line # rest) =
     (let msg = strip line in
      if lower msg \<in> {''exit'', ''quit''} then ([Text msg_prompt, Text goodbye], [], ctx, None)
      else
        (case request run run_streamed ctx msg of
           (out, log, ctx', Some e) \<Rightarrow> (Text msg_prompt # out, log, ctx', Some e)
         | (out, log, ctx', None) \<Rightarrow>
             (let (out2, log2, ctx'', r) = main_loop run run_streamed ctx' rest
              in (Text msg_prompt # out @ out2, log @ log2, ctx'', r))))"

definition init_banner :: string where
  "init_banner = [CHR 0xF0, CHR 0x9F, CHR 0x94, CHR 0xA7] @ '' Support System Initialized '' @
     em_dash @ '' type '' @ quote @ ''exit'' @ quote @ '' to quit.''"

definition name_prompt :: string where
  "name_prompt = [CHR 0xF0, CHR 0x9F, CHR 0x91, CHR 0xA4] @ '' Enter your name: ''"

definition premium_prompt :: string where
  "premium_prompt = [CHR 0xE2, CHR 0xAD, CHR 0x90] @ '' Premium user? (y/n): ''"

text \<open>\<^verbatim>\<open>main\<close>: two answers build the context, then the loop runs on the remaining lines.\<close>

fun main ::
  "runner_run \<Rightarrow> 'e runner_run_streamed \<Rightarrow> string list \<Rightarrow>
     'e console_item list \<times> trace \<times> exn option" where
  "main run run_streamed [] = ([Text init_banner, Text name_prompt], [], Some EOFError)"
| "main run run_streamed [l1] =
     ([Text init_banner, Text name_prompt, Text premium_prompt], [], Some EOFError)"
| "main run run_streamed (l1 # l2 # rest) =
     (let name = (if strip l1 = [] then ''User'' else strip l1);
          is_premium = startswith (lower l2) ''y'';
          ctx = new_SupportContext name is_premium;
          (out, log, ctx', r) = main_loop run run_streamed ctx rest
      in (Text init_banner # Text name_prompt # Text premium_prompt # out, log, r))"

section \<open>The Handoff Controller\<close>

text \<open>
  Modelled from the spec: the Handoff Controller, its Inference Provider and its Event
  Stream (sections 4.1, 4.3, 4.5, 6 and 7). In the program they are the runner of the
  imported \<^verbatim>\<open>agents\<close> library, which is not in the source; \<^verbatim>\<open>main\<close> only
  starts a run and prints what the run streams. The definitions of this section follow
  the words of the spec and use the program's agents, guardrail, tools and predicates.
  Timestamps and request identifiers of events are left out.
\<close>

datatype cstate =
  STARTED | CLASSIFYING | DELEGATING | EXECUTING | VALIDATING | ACCEPTED | RETRYING | FAILED | DONE

text \<open>Modelled from the spec: the transitions listed in section 4.1 (the state machine of
  the absent runner).\<close>

definition transitions :: "(cstate \<times> cstate) list" where
  "transitions =
     [(STARTED, CLASSIFYING), (CLASSIFYING, DELEGATING), (CLASSIFYING, FAILED),
      (DELEGATING, EXECUTING), (EXECUTING, VALIDATING), (EXECUTING, FAILED),
      (VALIDATING, ACCEPTED), (VALIDATING, RETRYING), (VALIDATING, FAILED),
      (RETRYING, EXECUTING), (ACCEPTED, DONE), (FAILED, DONE)]"

fun linear_path :: "cstate list \<Rightarrow> bool" where
  "linear_path [] = True"
| "linear_path [s] = True"
| "linear_path (s # t # ss) = ((s, t) \<in> set transitions \<and> linear_path (t # ss))"

datatype event_kind =
    request_started | classification_result | handoff | capability_invoked
  | candidate_produced | guardrail_result | retry_scheduled | request_accepted | request_failed

datatype event_payload =
    No_payload
  | Target string
  | Capability tool
  | Verdict bool string
  | Reason failure

datatype event = Event (kind: event_kind) (detail: event_payload)

definition terminal :: "event \<Rightarrow> bool" where
  "terminal e = (kind e = request_accepted \<or> kind e = request_failed)"

text \<open>
  Modelled from the spec: the Inference Provider of section 6 (the language model behind
  the absent runner).
  \<^verbatim>\<open>invoke(instructions, input, context, availableCapabilities)\<close>
  answers with a structured output or a capability invocation request, or fails. The
  second function is the provider's answer once a handler's result has been fed back.
\<close>

datatype structured_output =
    Decision "string list" "string option"
  | Response string
  | Apology_check bool string
  | Malformed

datatype provider_reply = Structured structured_output | CapabilityInvocationRequest tool

datatype provider_fault = Transport_fault | Model_fault

record provider =
  invoke :: "string \<Rightarrow> string \<Rightarrow> SupportContext \<Rightarrow> tool list \<Rightarrow> provider_fault + provider_reply"
  resume :: "string \<Rightarrow> string \<Rightarrow> SupportContext \<Rightarrow> tool list \<Rightarrow> tool \<Rightarrow> payload \<Rightarrow>
               provider_fault + provider_reply"

text \<open>
  Modelled from the spec: the Guardrail Validator of section 4.3, run by the absent runner.
  The guardrail's secondary classification is one more invocation of the provider, with
  the guardrail agent's instructions and no capabilities; this is the \<open>run\<close> that
  \<open>no_apology_guardrail\<close> calls.
\<close>

definition run_of :: "provider \<Rightarrow> runner_run" where
  "run_of P agent input ctx =
     (case invoke P (instructions agent) input ctx [] of
        Inl f \<Rightarrow> Inl (AgentsException ''provider'')
      | Inr (Structured (Apology_check b why)) \<Rightarrow> Inr \<lparr>has_apology = b, reasoning = why\<rparr>
      | Inr other \<Rightarrow> Inl (AgentsException ''output shape''))"

fun apply_guardrail ::
  "output_guardrail \<Rightarrow> runner_run \<Rightarrow> RunContextWrapper \<Rightarrow> Agent \<Rightarrow> AgentResponse \<Rightarrow>
     exn + GuardrailFunctionOutput" where
  "apply_guardrail No_apology_guardrail = no_apology_guardrail"

text \<open>
  Modelled from the spec: the evaluation order of section 4.3, fixed here to stop at the
  first failure. Guardrails run in declaration order, so the failing
  verdict, if any, is the last one of the list.
\<close>

fun validate ::
  "runner_run \<Rightarrow> SupportContext \<Rightarrow> Agent \<Rightarrow> AgentResponse \<Rightarrow> output_guardrail list \<Rightarrow>
     exn + GuardrailFunctionOutput list" where
  "validate run ctx a out [] = Inr []"
| "validate run ctx a out (g # gs) =
     (case apply_guardrail g run \<lparr>wrapped_context = ctx\<rparr> a out of
        Inl e \<Rightarrow> Inl e
      | Inr v \<Rightarrow>
          if passed v then
            (case validate run ctx a out gs of Inl e \<Rightarrow> Inl e | Inr vs \<Rightarrow> Inr (v # vs))
          else Inr [v])"

definition verdict_event :: "GuardrailFunctionOutput \<Rightarrow> event" where
  "verdict_event v = Event guardrail_result (Verdict (passed v) (reasoning (output_info v)))"

definition failure_reason :: "GuardrailFunctionOutput list \<Rightarrow> string" where
  "failure_reason vs = (case rev vs of [] \<Rightarrow> [] | v # _ \<Rightarrow> reasoning (output_info v))"

text \<open>
  Modelled from the spec: the EXECUTING step of the absent runner (sections 4.1 and 6),
  one invocation of the responder. A requested capability must be in the
  gated view; its handler's result is fed back for the final structured answer.
\<close>

definition conforming :: "provider_fault + provider_reply \<Rightarrow> failure + AgentResponse" where
  "conforming reply =
     (case reply of
        Inl f \<Rightarrow> Inl ProviderError
      | Inr (Structured (Response s)) \<Rightarrow> Inr \<lparr>response = s\<rparr>
      | Inr other \<Rightarrow> Inl OutputShapeError)"

definition execute ::
  "provider \<Rightarrow> SupportContext \<Rightarrow> string \<Rightarrow> string \<Rightarrow> tool list \<Rightarrow>
     event list \<times> SupportContext \<times> (failure + AgentResponse)" where
  "execute P ctx instr input view =
     (case invoke P instr input ctx view of
        Inr (CapabilityInvocationRequest t) \<Rightarrow>
          (case invoke_capability ctx view t of
             Inl f \<Rightarrow> ([], ctx, Inl f)
           | Inr (ctx', p) \<Rightarrow>
               ([Event capability_invoked (Capability t)], ctx',
                conforming (resume P instr input ctx' view t p)))
      | reply \<Rightarrow> ([], ctx, conforming reply))"

datatype attempt_result =
    Exec_failed failure
  | Validation_error
  | Accepted AgentResponse
  | Rejected string

definition try_once ::
  "provider \<Rightarrow> SupportContext \<Rightarrow> Agent \<Rightarrow> string \<Rightarrow> string \<Rightarrow> tool list \<Rightarrow>
     event list \<times> SupportContext \<times> attempt_result" where
  "try_once P ctx r input instr view =
     (case execute P ctx instr input view of
        (evs, ctx', Inl f) \<Rightarrow> (evs, ctx', Exec_failed f)
      | (evs, ctx', Inr cand) \<Rightarrow>
          (case validate (run_of P) ctx' r cand (output_guardrails r) of
             Inl e \<Rightarrow> (evs @ [Event candidate_produced No_payload], ctx', Validation_error)
           | Inr vs \<Rightarrow>
               (evs @ Event candidate_produced No_payload # map verdict_event vs, ctx',
                if list_all passed vs then Accepted cand else Rejected (failure_reason vs))))"

text \<open>Modelled from the spec: what the absent runner does for one request, as a record of
  the states entered, the events emitted (section 4.5) and the responder invocations.\<close>

record run_record =
  states :: "cstate list"
  events :: "event list"
  invocations :: "(string \<times> string \<times> tool list) list"
  result :: "failure + AgentResponse"

definition preceded ::
  "cstate list \<Rightarrow> event list \<Rightarrow> (string \<times> string \<times> tool list) list \<Rightarrow> run_record \<Rightarrow> run_record" where
  "preceded sts evs invs r =
     \<lparr>states = sts @ states r, events = evs @ events r,
      invocations = invs @ invocations r, result = result r\<rparr>"

definition retry_note :: "string \<Rightarrow> string" where
  "retry_note why = newline @ ''Note: the previous answer was rejected: '' @ why"


text \<open>
  Modelled from the spec: the retry loop of the absent runner (sections 4.1 and 4.2), with
  the default budget of section 4.1. The view is recomputed for every invocation; a rejected candidate is
  retried with the note added to the instructions while the budget lasts.
\<close>

fun attempt ::
  "provider \<Rightarrow> tool list \<Rightarrow> SupportContext \<Rightarrow> Agent \<Rightarrow> string \<Rightarrow> string \<Rightarrow> nat \<Rightarrow> run_record" where
  "attempt P caps ctx r input instr budget =
     (let view = gated_view ctx caps;
          inv = [(agent_name r, instr, view)]
      in case try_once P ctx r input instr view of
           (evs, ctx', Exec_failed f) \<Rightarrow>
             \<lparr>states = [EXECUTING, FAILED, DONE],
              events = evs @ [Event request_failed (Reason f)],
              invocations = inv, result = Inl f\<rparr>
         | (evs, ctx', Validation_error) \<Rightarrow>
             \<lparr>states = [EXECUTING, VALIDATING, FAILED, DONE],
              events = evs @ [Event request_failed (Reason ProviderError)],
              invocations = inv, result = Inl ProviderError\<rparr>
         | (evs, ctx', Accepted cand) \<Rightarrow>
             \<lparr>states = [EXECUTING, VALIDATING, ACCEPTED, DONE],
              events = evs @ [Event request_accepted No_payload],
              invocations = inv, result = Inr cand\<rparr>
         | (evs, ctx', Rejected why) \<Rightarrow>
             (case budget of
                0 \<Rightarrow>
                  \<lparr>states = [EXECUTING, VALIDATING, FAILED, DONE],
                   events = evs @ [Event request_failed (Reason (GuardrailFailure why))],
                   invocations = inv, result = Inl (GuardrailFailure why)\<rparr>
              | Suc n \<Rightarrow>
                  preceded [EXECUTING, VALIDATING, RETRYING]
                    (evs @ [Event retry_scheduled (Reason (GuardrailFailure why))]) inv
                    (attempt P caps ctx' r input (instr @ retry_note why) n)))"

definition categories :: "string list" where
  "categories = [''billing'', ''technical'', ''general'']"

definition resolve :: "Agent \<Rightarrow> string \<Rightarrow> Agent option" where
  "resolve router target = find (\<lambda>a. agent_name a = target) (handoffs router)"

definition rejected :: "failure \<Rightarrow> run_record" where
  "rejected f =
     \<lparr>states = [STARTED, CLASSIFYING, FAILED, DONE],
      events = [Event request_started No_payload, Event request_failed (Reason f)],
      invocations = [], result = Inl f\<rparr>"

text \<open>
  Modelled from the spec: the Handoff Controller of section 4.1 for one request (the absent
  runner's \<^verbatim>\<open>run_streamed\<close>). The Router has no capabilities; it must name exactly one known responder
  and a category, which is written to the context before the responder is dispatched.
  The capabilities on offer to the responder are its own and the list given with the
  run.
\<close>

definition controller ::
  "provider \<Rightarrow> nat \<Rightarrow> Agent \<Rightarrow> string \<Rightarrow> SupportContext \<Rightarrow> tool list \<Rightarrow> run_record" where
  "controller P budget router msg ctx tools =
     (case invoke P (instructions router) msg ctx [] of
        Inl f \<Rightarrow> rejected ProviderError
      | Inr (CapabilityInvocationRequest t) \<Rightarrow> rejected CapabilityViolation
      | Inr (Structured (Decision [target] (Some cat))) \<Rightarrow>
          (case resolve router target of
             None \<Rightarrow> rejected ClassificationError
           | Some r \<Rightarrow>
               if cat \<in> set categories then
                 preceded [STARTED, CLASSIFYING, DELEGATING]
                   [Event request_started No_payload,
                    Event classification_result (Target target),
                    Event handoff (Target (agent_name r))] []
                   (attempt P (declared_capabilities r @ tools) (ctx\<lparr>issue_type := Some cat\<rparr>)
                      r msg (instructions r) budget)
               else rejected ClassificationError)
      | Inr other \<Rightarrow> rejected ClassificationError)"

text \<open>
  Modelled from the spec: the correspondence of events and transitions (sections 4.1 and
  4.5). Reading a sequence of events as a walk through the state machine: the states an event
  of each kind enters, from the state the walk is in.
\<close>

definition on_event :: "cstate \<Rightarrow> event_kind \<Rightarrow> cstate list option" where
  "on_event s k = map_of
     [((STARTED, request_started), [CLASSIFYING]),
      ((CLASSIFYING, classification_result), [DELEGATING]),
      ((CLASSIFYING, request_failed), [FAILED, DONE]),
      ((DELEGATING, handoff), [EXECUTING]),
      ((EXECUTING, capability_invoked), []),
      ((EXECUTING, candidate_produced), [VALIDATING]),
      ((EXECUTING, request_failed), [FAILED, DONE]),
      ((VALIDATING, guardrail_result), []),
      ((VALIDATING, retry_scheduled), [RETRYING, EXECUTING]),
      ((VALIDATING, request_accepted), [ACCEPTED, DONE]),
      ((VALIDATING, request_failed), [FAILED, DONE])] (s, k)"

fun replay :: "cstate \<Rightarrow> event_kind list \<Rightarrow> cstate list option" where
  "replay s [] = Some []"
| "replay s (k # ks) =
     (case on_event s k of
        None \<Rightarrow> None
      | Some entered \<Rightarrow>
          (case replay (last (s # entered)) ks of
             None \<Rightarrow> None
           | Some path \<Rightarrow> Some (entered @ path)))"

section \<open>Sample inputs\<close>

text \<open>Two contexts of the scenarios, a context left over from an earlier request, and a
  library that answers every run the same way.\<close>

definition ana :: SupportContext where
  "ana = \<lparr>name = ''Ana'', is_premium_user = True, issue_type = None\<rparr>"

definition bo :: SupportContext where
  "bo = \<lparr>name = ''Bo'', is_premium_user = False, issue_type = None\<rparr>"

definition stale :: SupportContext where
  "stale = \<lparr>name = ''Ana'', is_premium_user = True, issue_type = Some ''technical''\<rparr>"

definition demo_run :: runner_run where
  "demo_run = (\<lambda>a s c. Inr \<lparr>has_apology = False, reasoning = ''none''\<rparr>)"

definition demo_run_streamed :: "nat runner_run_streamed" where
  "demo_run_streamed = (\<lambda>a s c cfg ts.
     Inr \<lparr>callbacks = [Call_tool Restart_service,
                       Call_guardrail technical_agent \<lparr>response = ''Restarted.''\<rparr>],
          stream_events = [0, 1], raised = None\<rparr>)"

text \<open>
  Modelled from the spec: sample collaborators for the absent runner.
  An Inference Provider that routes every message to the billing agent, answers with the
  same sentence and judges every answer the same way; and a library whose streamed events
  are those of the controller run on such a provider.
\<close>

definition scripted_provider :: "bool \<Rightarrow> provider" where
  "scripted_provider apologises =
     \<lparr>invoke = (\<lambda>instr input ctx view.
        if instr = instructions triage_agent then
          Inr (Structured (Decision [''Billing Agent''] (Some ''billing'')))
        else if instr = instructions apology_guardrail_agent then
          Inr (Structured (Apology_check apologises ''looked for an apology''))
        else Inr (Structured (Response ''Your invoice is attached.''))),
      resume = (\<lambda>instr input ctx view t p. Inr (Structured (Response ''Done.'')))\<rparr>"

definition streamed_by :: "provider \<Rightarrow> nat \<Rightarrow> event runner_run_streamed" where
  "streamed_by P budget agent input ctx config tools =
     Inr \<lparr>callbacks = [], stream_events = events (controller P budget agent input ctx tools),
          raised = None\<rparr>"

section \<open>The program's own steps leave the context alone\<close>

lemma handler_ctx: "fst (handler t ctx) = ctx"
  by (cases t) (simp_all add: refund_def restart_service_def general_info_def)

lemma exec_callbacks_frame:
  "exec_callbacks run ctx cs = (log, ctx') \<Longrightarrow>
     ctx' = ctx \<and> (\<forall>x \<in> set log. snd x = ctx \<and> (\<forall>v. fst x \<noteq> Assign_issue_type v))"
proof (induction cs arbitrary: log ctx')
  case Nil
  then show ?case by simp
next
  case (Cons cb cs)
  obtain log0 c0 where rec: "exec_callbacks run ctx cs = (log0, c0)"
    by (cases "exec_callbacks run ctx cs")
  from Cons.IH [OF rec] have ih: "c0 = ctx" "\<forall>x \<in> set log0. snd x = ctx \<and> (\<forall>v. fst x \<noteq> Assign_issue_type v)"
    by simp_all
  show ?case
  proof (cases cb)
    case (Call_tool t)
    obtain p where h: "handler t ctx = (ctx, p)"
      using handler_ctx [of t ctx] by (cases "handler t ctx") simp
    with Cons.prems Call_tool rec ih show ?thesis by auto
  next
    case (Call_guardrail a out)
    with Cons.prems rec ih show ?thesis by auto
  qed
qed

lemma request_frame:
  "request run rs ctx msg = (out, log, ctx', r) \<Longrightarrow>
     ctx' = ctx\<lparr>issue_type := None\<rparr> \<and>
     (\<exists>rest. log = (Assign_issue_type None, ctx\<lparr>issue_type := None\<rparr>) # rest \<and>
        (\<forall>x \<in> set rest. snd x = ctx\<lparr>issue_type := None\<rparr> \<and> (\<forall>v. fst x \<noteq> Assign_issue_type v)))"
proof (cases "rs triage_agent msg (ctx\<lparr>issue_type := None\<rparr>) \<lparr>stream = True\<rparr> main_tools")
  case (Inl e)
  assume "request run rs ctx msg = (out, log, ctx', r)"
  with Inl show ?thesis by (auto simp: request_def Let_def)
next
  case (Inr result)
  assume a: "request run rs ctx msg = (out, log, ctx', r)"
  obtain l c where ex: "exec_callbacks run (ctx\<lparr>issue_type := None\<rparr>) (callbacks result) = (l, c)"
    by (cases "exec_callbacks run (ctx\<lparr>issue_type := None\<rparr>) (callbacks result)")
  from exec_callbacks_frame [OF ex] a Inr ex show ?thesis
    by (auto simp: request_def Let_def)
qed


lemma main_loop_frame:
  "main_loop run rs ctx inputs = (out, log, ctx', r) \<Longrightarrow>
     name ctx' = name ctx \<and> is_premium_user ctx' = is_premium_user ctx \<and>
     (\<forall>x \<in> set log. name (snd x) = name ctx \<and> is_premium_user (snd x) = is_premium_user ctx \<and>
        issue_type (snd x) = None \<and> (\<forall>v. fst x = Assign_issue_type v \<longrightarrow> v = None))"
proof (induction inputs arbitrary: ctx out log ctx' r)
  case Nil
  then show ?case by simp
next
  case (Cons line rest)
  show ?case
  proof (cases "lower (strip line) \<in> {''exit'', ''quit''}")
    case True
    with Cons.prems show ?thesis by (simp add: Let_def)
  next
    case False
    obtain o1 l1 c1 r1 where rq: "request run rs ctx (strip line) = (o1, l1, c1, r1)"
      by (cases "request run rs ctx (strip line)") auto
    from request_frame [OF rq] have c1: "c1 = ctx\<lparr>issue_type := None\<rparr>"
      and l1: "\<forall>x \<in> set l1. snd x = ctx\<lparr>issue_type := None\<rparr> \<and> (\<forall>v. fst x = Assign_issue_type v \<longrightarrow> v = None)"
      by auto
    show ?thesis
    proof (cases r1)
      case (Some e)
      with Cons.prems False rq have "log = l1" "ctx' = c1" by (simp_all add: Let_def)
      with c1 l1 show ?thesis by auto
    next
      case None
      obtain o2 l2 c2 r2 where ml: "main_loop run rs c1 rest = (o2, l2, c2, r2)"
        by (cases "main_loop run rs c1 rest") auto
      from Cons.prems False rq None ml have eq: "log = l1 @ l2" "ctx' = c2" by (simp_all add: Let_def)
      from Cons.IH [OF ml] c1 have ih: "name c2 = name ctx" "is_premium_user c2 = is_premium_user ctx"
        "\<forall>x \<in> set l2. name (snd x) = name ctx \<and> is_premium_user (snd x) = is_premium_user ctx \<and>
        issue_type (snd x) = None \<and> (\<forall>v. fst x = Assign_issue_type v \<longrightarrow> v = None)"
        by simp_all
      from eq ih l1 show ?thesis by auto
    qed
  qed
qed

lemma main_trace_inv:
  "(a, c) \<in> set (fst (snd (main run rs inputs))) \<Longrightarrow>
     issue_type c = None \<and> (\<forall>v. a = Assign_issue_type v \<longrightarrow> v = None)"
proof (cases inputs)
  case Nil
  assume "(a, c) \<in> set (fst (snd (main run rs inputs)))"
  with Nil show ?thesis by simp
next
  case (Cons l1 tl)
  assume m: "(a, c) \<in> set (fst (snd (main run rs inputs)))"
  show ?thesis
  proof (cases tl)
    case Nil
    with Cons m show ?thesis by simp
  next
    case (Cons l2 rest)
    let ?ctx = "new_SupportContext (if strip l1 = [] then ''User'' else strip l1) (startswith (lower l2) ''y'')"
    obtain o2 lg c2 r2 where ml: "main_loop run rs ?ctx rest = (o2, lg, c2, r2)"
      by (cases "main_loop run rs ?ctx rest") auto
    from m \<open>inputs = l1 # tl\<close> Cons ml have "(a, c) \<in> set lg" by (simp add: Let_def)
    with main_loop_frame [OF ml] show ?thesis by fastforce
  qed
qed

section \<open>Capability handlers\<close>

text \<open>
  Claim C10. Every capability handler (\<open>refund\<close>, \<open>restart_service\<close>, \<open>general_info\<close>)
  leaves the context as it found it, in particular \<open>issue_type\<close> and \<open>name\<close>: it reads
  the context and returns a payload.
\<close>

theorem handlers_leave_context:
  "issue_type (fst (handler t ctx)) = issue_type ctx \<and> name (fst (handler t ctx)) = name ctx \<and>
   fst (refund ctx) = ctx \<and> fst (restart_service ctx) = ctx \<and> fst (general_info ctx) = ctx"
  by (cases t) (simp_all add: refund_def restart_service_def general_info_def)

section \<open>Enablement predicates and the gated view\<close>

text \<open>
  Claim C2. The predicate of the refund capability holds exactly when
  \<open>is_premium_user\<close> is true. When it is false, the refund capability is not in the view
  offered for the billing agent, and a request to invoke it is rejected instead of run.
\<close>

theorem refund_gate:
  "(is_enabled Refund ctx \<longleftrightarrow> is_premium_user ctx) \<and>
   (\<not> is_enabled Refund ctx \<longrightarrow>
      Refund \<notin> set (offered_view ctx billing_agent) \<and>
      invoke_capability ctx (offered_view ctx billing_agent) Refund = Inl CapabilityViolation)"
  by (simp add: offered_view_def gated_view_def declared_capabilities_def main_tools_def
      invoke_capability_def)

theorem refund_gate_witness:
  "\<not> is_enabled Refund bo \<and> Refund \<notin> set (offered_view bo billing_agent) \<and>
   invoke_capability bo (offered_view bo billing_agent) Refund = Inl CapabilityViolation"
  using refund_gate [of bo] by (simp add: bo_def)




section \<open>The guardrail verdict\<close>

text \<open>
  Claim C6. When the apology classification of a candidate answer returns \<open>c\<close>, the
  guardrail produces exactly one verdict; its tripwire is triggered exactly when
  \<open>has_apology c\<close> is true, so it passes exactly when no apology was detected.
\<close>

theorem no_apology_guardrail_verdict:
  assumes "run apology_guardrail_agent (response out) (wrapped_context ctx) = Inr c"
  shows "\<exists>!g. no_apology_guardrail run ctx agent out = Inr g \<and>
           (tripwire_triggered g \<longleftrightarrow> has_apology c) \<and> (passed g \<longleftrightarrow> \<not> has_apology c)"
  using assms by (auto simp: no_apology_guardrail_def passed_def)

theorem no_apology_guardrail_verdict_witness:
  "\<exists>!g. no_apology_guardrail (\<lambda>a s c. Inr \<lparr>has_apology = (s = apology_word), reasoning = ''word''\<rparr>)
           \<lparr>wrapped_context = bo\<rparr> billing_agent \<lparr>response = apology_word\<rparr> = Inr g \<and>
         (tripwire_triggered g \<longleftrightarrow> True) \<and> (passed g \<longleftrightarrow> False)"
  using no_apology_guardrail_verdict
    [of "\<lambda>a s c. Inr \<lparr>has_apology = (s = apology_word), reasoning = ''word''\<rparr>" "\<lparr>response = apology_word\<rparr>"
        "\<lparr>wrapped_context = bo\<rparr>" "\<lparr>has_apology = True, reasoning = ''word''\<rparr>" billing_agent]
  by simp

section \<open>The category field over a session\<close>

text \<open>
  Claim C5. Every assignment to \<open>issue_type\<close> made by the program assigns None. In every
  state the program's own steps reach (the reset, the start of a run, the handlers and
  the guardrail called back by the library) \<open>issue_type\<close> is None, the predicate of
  \<open>restart_service\<close> is false, and the capability is in no offered view.
\<close>

theorem issue_type_never_set:
  "\<forall>(a, c) \<in> set (fst (snd (main run rs inputs))).
     (\<forall>v. a = Assign_issue_type v \<longrightarrow> v = None) \<and> issue_type c = None \<and>
     \<not> is_enabled Restart_service c \<and> Restart_service \<notin> set (offered_view c ag)"
proof -
  have "issue_type c = None \<Longrightarrow> Restart_service \<notin> set (offered_view c ag)" for c
    by (simp add: offered_view_def gated_view_def declared_capabilities_def main_tools_def)
  with main_trace_inv [of _ _ run rs inputs] show ?thesis by fastforce
qed

theorem issue_type_never_set_witness:
  "(Assign_issue_type None, ana) \<in> set (fst (snd (main demo_run demo_run_streamed [''Ana'', ''y'', ''my router is down'', '' Exit '']))) \<and>
   (Tool_called Restart_service (snd (restart_service ana)), ana) \<in> set (fst (snd (main demo_run demo_run_streamed [''Ana'', ''y'', ''my router is down'', '' Exit '']))) \<and>
   \<not> is_enabled Restart_service ana"
  using issue_type_never_set [of demo_run demo_run_streamed "[''Ana'', ''y'', ''my router is down'', '' Exit '']" billing_agent]
  by (simp add: demo_run_def demo_run_streamed_def ana_def Let_def request_def strip_def lower_def
      lower_char_def is_space_def startswith_def new_SupportContext_def restart_service_def)

text \<open>
  Claim C8. A request begins by resetting \<open>issue_type\<close> to None, immediately before the
  run starts; no later step of that request assigns the field, and every step of the
  request sees the context with the field unset. Across the requests of a session
  \<open>name\<close> and \<open>is_premium_user\<close> keep the values given at creation: \<open>issue_type\<close> is the
  only field written per request.
\<close>

theorem issue_type_reset_per_request:
  "(request run rs ctx msg = (out, log, ctx', r) \<longrightarrow>
      ctx' = ctx\<lparr>issue_type := None\<rparr> \<and>
      (\<exists>rest. log = (Assign_issue_type None, ctx\<lparr>issue_type := None\<rparr>) #
                     (Run_streamed triage_agent msg (ctx\<lparr>issue_type := None\<rparr>) \<lparr>stream = True\<rparr> main_tools,
                      ctx\<lparr>issue_type := None\<rparr>) # rest \<and>
         (\<forall>x \<in> set rest. snd x = ctx\<lparr>issue_type := None\<rparr> \<and> (\<forall>v. fst x \<noteq> Assign_issue_type v)))) \<and>
   (main_loop run rs ctx inputs = (out2, log2, ctx2, r2) \<longrightarrow>
      name ctx2 = name ctx \<and> is_premium_user ctx2 = is_premium_user ctx \<and>
      (\<forall>x \<in> set log2. name (snd x) = name ctx \<and> is_premium_user (snd x) = is_premium_user ctx \<and>
         issue_type (snd x) = None))"
proof (intro conjI impI)
  assume a: "request run rs ctx msg = (out, log, ctx', r)"
  from request_frame [OF a] show "ctx' = ctx\<lparr>issue_type := None\<rparr>" by simp
  from request_frame [OF a] obtain rest0 where
    l: "log = (Assign_issue_type None, ctx\<lparr>issue_type := None\<rparr>) # rest0" and
    r: "\<forall>x \<in> set rest0. snd x = ctx\<lparr>issue_type := None\<rparr> \<and> (\<forall>v. fst x \<noteq> Assign_issue_type v)"
    by blast
  have "\<exists>tl0. rest0 = (Run_streamed triage_agent msg (ctx\<lparr>issue_type := None\<rparr>) \<lparr>stream = True\<rparr> main_tools,
                      ctx\<lparr>issue_type := None\<rparr>) # tl0"
    using a l by (auto simp: request_def Let_def split: sum.splits prod.splits)
  then obtain tl0 where t: "rest0 = (Run_streamed triage_agent msg (ctx\<lparr>issue_type := None\<rparr>) \<lparr>stream = True\<rparr> main_tools,
                      ctx\<lparr>issue_type := None\<rparr>) # tl0" by blast
  with r have "\<forall>x \<in> set tl0. snd x = ctx\<lparr>issue_type := None\<rparr> \<and> (\<forall>v. fst x \<noteq> Assign_issue_type v)" by simp
  with l t show "\<exists>rest. log = (Assign_issue_type None, ctx\<lparr>issue_type := None\<rparr>) #
                     (Run_streamed triage_agent msg (ctx\<lparr>issue_type := None\<rparr>) \<lparr>stream = True\<rparr> main_tools,
                      ctx\<lparr>issue_type := None\<rparr>) # rest \<and>
         (\<forall>x \<in> set rest. snd x = ctx\<lparr>issue_type := None\<rparr> \<and> (\<forall>v. fst x \<noteq> Assign_issue_type v))" by blast
next
  assume b: "main_loop run rs ctx inputs = (out2, log2, ctx2, r2)"
  from main_loop_frame [OF b] show "name ctx2 = name ctx" by simp
  from main_loop_frame [OF b] show "is_premium_user ctx2 = is_premium_user ctx" by simp
  from main_loop_frame [OF b] show "\<forall>x \<in> set log2. name (snd x) = name ctx \<and> is_premium_user (snd x) = is_premium_user ctx \<and>
         issue_type (snd x) = None" by blast
qed

theorem issue_type_reset_per_request_witness:
  "request demo_run demo_run_streamed stale ''refund please'' =
     ([Text triage_banner, Event_line 0, Event_line 1],
      [(Assign_issue_type None, ana),
       (Run_streamed triage_agent ''refund please'' ana \<lparr>stream = True\<rparr> main_tools, ana),
       (Tool_called Restart_service (snd (restart_service ana)), ana),
       (Guardrail_called technical_agent \<lparr>response = ''Restarted.''\<rparr>
          (Inr \<lparr>output_info = \<lparr>has_apology = False, reasoning = ''none''\<rparr>, tripwire_triggered = False\<rparr>), ana)],
      ana, None) \<and>
   main_loop demo_run demo_run_streamed stale [''refund please'', ''quit''] =
     ([Text msg_prompt, Text triage_banner, Event_line 0, Event_line 1, Text msg_prompt, Text goodbye],
      [(Assign_issue_type None, ana),
       (Run_streamed triage_agent ''refund please'' ana \<lparr>stream = True\<rparr> main_tools, ana),
       (Tool_called Restart_service (snd (restart_service ana)), ana),
       (Guardrail_called technical_agent \<lparr>response = ''Restarted.''\<rparr>
          (Inr \<lparr>output_info = \<lparr>has_apology = False, reasoning = ''none''\<rparr>, tripwire_triggered = False\<rparr>), ana)],
      ana, None) \<and>
   name ana = name stale \<and> is_premium_user ana = is_premium_user stale"
  using issue_type_reset_per_request [of demo_run demo_run_streamed stale "''refund please''"
      "[Text triage_banner, Event_line 0, Event_line 1]" _ ana None "[''refund please'', ''quit'']"
      "[Text msg_prompt, Text triage_banner, Event_line 0, Event_line 1, Text msg_prompt, Text goodbye]" _ ana None]
  by (simp add: demo_run_def demo_run_streamed_def ana_def stale_def Let_def request_def strip_def lower_def
      lower_char_def is_space_def restart_service_def no_apology_guardrail_def)

section \<open>The controller walks the state machine\<close>

declare attempt.simps [simp del]

lemma attempt_exec_failed:
  "try_once P ctx r input instr (gated_view ctx caps) = (evs, ctx', Exec_failed f) \<Longrightarrow>
   attempt P caps ctx r input instr budget =
     \<lparr>states = [EXECUTING, FAILED, DONE], events = evs @ [Event request_failed (Reason f)],
      invocations = [(agent_name r, instr, gated_view ctx caps)], result = Inl f\<rparr>"
  by (simp add: attempt.simps)

lemma attempt_validation_error:
  "try_once P ctx r input instr (gated_view ctx caps) = (evs, ctx', Validation_error) \<Longrightarrow>
   attempt P caps ctx r input instr budget =
     \<lparr>states = [EXECUTING, VALIDATING, FAILED, DONE],
      events = evs @ [Event request_failed (Reason ProviderError)],
      invocations = [(agent_name r, instr, gated_view ctx caps)], result = Inl ProviderError\<rparr>"
  by (simp add: attempt.simps)

lemma attempt_accepted:
  "try_once P ctx r input instr (gated_view ctx caps) = (evs, ctx', Accepted cand) \<Longrightarrow>
   attempt P caps ctx r input instr budget =
     \<lparr>states = [EXECUTING, VALIDATING, ACCEPTED, DONE],
      events = evs @ [Event request_accepted No_payload],
      invocations = [(agent_name r, instr, gated_view ctx caps)], result = Inr cand\<rparr>"
  by (simp add: attempt.simps)

lemma attempt_exhausted:
  "try_once P ctx r input instr (gated_view ctx caps) = (evs, ctx', Rejected why) \<Longrightarrow>
   attempt P caps ctx r input instr 0 =
     \<lparr>states = [EXECUTING, VALIDATING, FAILED, DONE],
      events = evs @ [Event request_failed (Reason (GuardrailFailure why))],
      invocations = [(agent_name r, instr, gated_view ctx caps)],
      result = Inl (GuardrailFailure why)\<rparr>"
  by (simp add: attempt.simps)

lemma attempt_retry:
  "try_once P ctx r input instr (gated_view ctx caps) = (evs, ctx', Rejected why) \<Longrightarrow>
   attempt P caps ctx r input instr (Suc n) =
     preceded [EXECUTING, VALIDATING, RETRYING]
       (evs @ [Event retry_scheduled (Reason (GuardrailFailure why))])
       [(agent_name r, instr, gated_view ctx caps)]
       (attempt P caps ctx' r input (instr @ retry_note why) n)"
  by (simp add: attempt.simps)

text \<open>The events of one attempt.\<close>

lemma execute_kinds:
  "execute P ctx instr input view = (evs, ctx', res) \<Longrightarrow>
     map kind evs = [] \<or> map kind evs = [capability_invoked]"
  by (auto simp: execute_def split: sum.splits provider_reply.splits prod.splits)

lemma try_once_kinds:
  assumes "try_once P ctx r input instr view = (evs, ctx', res)"
  shows "\<exists>caps n. (caps = [] \<or> caps = [capability_invoked]) \<and>
           map kind evs = (case res of Exec_failed f \<Rightarrow> caps
                            | Validation_error \<Rightarrow> caps @ [candidate_produced]
                            | _ \<Rightarrow> caps @ candidate_produced # replicate n guardrail_result)"
proof -
  obtain e0 c0 r0 where ex: "execute P ctx instr input view = (e0, c0, r0)"
    by (cases "execute P ctx instr input view") auto
  from execute_kinds [OF ex] have k: "map kind e0 = [] \<or> map kind e0 = [capability_invoked]" .
  have vk: "map (kind \<circ> verdict_event) vs = replicate (length vs) guardrail_result" for vs
    by (induction vs) (simp_all add: verdict_event_def)
  show ?thesis
  proof (cases r0)
    case (Inl f)
    with assms ex have "evs = e0" "res = Exec_failed f" by (simp_all add: try_once_def)
    with k show ?thesis by auto
  next
    case (Inr cand)
    show ?thesis
    proof (cases "validate (run_of P) c0 r cand (output_guardrails r)")
      case (Inl e)
      with assms ex Inr have "evs = e0 @ [Event candidate_produced No_payload]" "res = Validation_error"
        by (simp_all add: try_once_def)
      with k show ?thesis by auto
    next
      case (Inr vs)
      with assms ex \<open>r0 = Inr cand\<close> have
        e: "evs = e0 @ Event candidate_produced No_payload # map verdict_event vs" and
        r: "res = (if list_all passed vs then Accepted cand else Rejected (failure_reason vs))"
        by (simp_all add: try_once_def)
      from e have "map kind evs = map kind e0 @ candidate_produced # replicate (length vs) guardrail_result"
        by (simp add: vk)
      with k r show ?thesis by (cases "list_all passed vs") auto
    qed
  qed
qed

lemma replay_append:
  "replay s (ks1 @ ks2) =
     (case replay s ks1 of
        None \<Rightarrow> None
      | Some p1 \<Rightarrow> (case replay (last (s # p1)) ks2 of None \<Rightarrow> None | Some p2 \<Rightarrow> Some (p1 @ p2)))"
proof (induction ks1 arbitrary: s)
  case Nil
  show ?case by (simp split: option.splits)
next
  case (Cons k ks1)
  show ?case
  proof (cases "on_event s k")
    case None
    then show ?thesis by simp
  next
    case (Some entered)
    show ?thesis
      using Some Cons.IH [of "last (s # entered)"]
      by (auto split: option.splits)
  qed
qed


lemma replay_verdicts: "replay VALIDATING (replicate n guardrail_result) = Some []"
  by (induction n) (simp_all add: on_event_def)

lemma replay_caps:
  "caps = [] \<or> caps = [capability_invoked] \<Longrightarrow> replay EXECUTING caps = Some []"
  by (auto simp: on_event_def)

lemma try_once_replay:
  assumes "try_once P ctx r input instr view = (evs, ctx', res)"
  shows "replay EXECUTING (map kind evs) =
           Some (case res of Exec_failed f \<Rightarrow> [] | _ \<Rightarrow> [VALIDATING])"
proof -
  from try_once_kinds [OF assms] obtain caps n where
    c: "caps = [] \<or> caps = [capability_invoked]" and
    k: "map kind evs = (case res of Exec_failed f \<Rightarrow> caps
                            | Validation_error \<Rightarrow> caps @ [candidate_produced]
                            | _ \<Rightarrow> caps @ candidate_produced # replicate n guardrail_result)"
    by blast
  have one: "replay EXECUTING [candidate_produced] = Some [VALIDATING]"
    by (simp add: on_event_def)
  have many: "replay EXECUTING (candidate_produced # replicate n guardrail_result) = Some [VALIDATING]"
    by (simp add: on_event_def replay_verdicts)
  show ?thesis
    using k replay_caps [OF c] one many
    by (cases res) (simp_all add: replay_append)
qed

lemma try_once_nonterminal:
  assumes "try_once P ctx r input instr view = (evs, ctx', res)"
  shows "filter terminal evs = []"
proof -
  from try_once_kinds [OF assms] obtain caps n where
    c: "caps = [] \<or> caps = [capability_invoked]" and
    k: "map kind evs = (case res of Exec_failed f \<Rightarrow> caps
                            | Validation_error \<Rightarrow> caps @ [candidate_produced]
                            | _ \<Rightarrow> caps @ candidate_produced # replicate n guardrail_result)"
    by blast
  have "set (map kind evs) \<subseteq> {capability_invoked, candidate_produced, guardrail_result}"
    using c k by (cases res) auto
  then have "\<forall>e \<in> set evs. \<not> terminal e"
    by (auto simp: terminal_def)
  then show ?thesis by (simp add: filter_empty_conv)
qed

lemma terminal_simps:
  "terminal (Event request_failed p)" "terminal (Event request_accepted p)"
  "\<not> terminal (Event retry_scheduled p)" "\<not> terminal (Event request_started p)"
  "\<not> terminal (Event classification_result p)" "\<not> terminal (Event handoff p)"
  by (simp_all add: terminal_def)

lemma attempt_walk:
  "replay EXECUTING (map kind (events (attempt P caps ctx r input instr b))) =
     Some (tl (states (attempt P caps ctx r input instr b))) \<and>
   hd (states (attempt P caps ctx r input instr b)) = EXECUTING \<and>
   states (attempt P caps ctx r input instr b) \<noteq> [] \<and>
   linear_path (states (attempt P caps ctx r input instr b)) \<and>
   last (states (attempt P caps ctx r input instr b)) = DONE \<and>
   events (attempt P caps ctx r input instr b) \<noteq> [] \<and>
   filter terminal (events (attempt P caps ctx r input instr b)) =
     [last (events (attempt P caps ctx r input instr b))]"
proof (induction b arbitrary: ctx instr)
  case 0
  obtain evs c res where t: "try_once P ctx r input instr (gated_view ctx caps) = (evs, c, res)"
    by (cases "try_once P ctx r input instr (gated_view ctx caps)") auto
  note rp = try_once_replay [OF t] and nt = try_once_nonterminal [OF t]
  show ?case
  proof (cases res)
    case (Exec_failed f)
    with rp nt show ?thesis
      by (simp add: attempt_exec_failed [OF t [unfolded Exec_failed]] replay_append on_event_def
          transitions_def terminal_simps)
  next
    case Validation_error
    with rp nt show ?thesis
      by (simp add: attempt_validation_error [OF t [unfolded Validation_error]] replay_append
          on_event_def transitions_def terminal_simps)
  next
    case (Accepted cand)
    with rp nt show ?thesis
      by (simp add: attempt_accepted [OF t [unfolded Accepted]] replay_append on_event_def
          transitions_def terminal_simps)
  next
    case (Rejected why)
    with rp nt show ?thesis
      by (simp add: attempt_exhausted [OF t [unfolded Rejected]] replay_append on_event_def
          transitions_def terminal_simps)
  qed
next
  case (Suc n)
  obtain evs c res where t: "try_once P ctx r input instr (gated_view ctx caps) = (evs, c, res)"
    by (cases "try_once P ctx r input instr (gated_view ctx caps)") auto
  note rp = try_once_replay [OF t] and nt = try_once_nonterminal [OF t]
  show ?case
  proof (cases res)
    case (Exec_failed f)
    with rp nt show ?thesis
      by (simp add: attempt_exec_failed [OF t [unfolded Exec_failed]] replay_append on_event_def
          transitions_def terminal_simps)
  next
    case Validation_error
    with rp nt show ?thesis
      by (simp add: attempt_validation_error [OF t [unfolded Validation_error]] replay_append
          on_event_def transitions_def terminal_simps)
  next
    case (Accepted cand)
    with rp nt show ?thesis
      by (simp add: attempt_accepted [OF t [unfolded Accepted]] replay_append on_event_def
          transitions_def terminal_simps)
  next
    case (Rejected why)
    let ?a = "attempt P caps c r input (instr @ retry_note why) n"
    from Suc.IH [of c "instr @ retry_note why"] have
      ih1: "replay EXECUTING (map kind (events ?a)) = Some (tl (states ?a))" and
      ih2: "hd (states ?a) = EXECUTING" and ih3: "states ?a \<noteq> []" and
      ih4: "linear_path (states ?a)" and ih5: "last (states ?a) = DONE" and
      ih6: "events ?a \<noteq> []" and ih7: "filter terminal (events ?a) = [last (events ?a)]"
      by simp_all
    from ih2 ih3 obtain ss where ss: "states ?a = EXECUTING # ss" by (cases "states ?a") auto
    have eq: "attempt P caps ctx r input instr (Suc n) =
       preceded [EXECUTING, VALIDATING, RETRYING]
         (evs @ [Event retry_scheduled (Reason (GuardrailFailure why))])
         [(agent_name r, instr, gated_view ctx caps)] ?a"
      using attempt_retry [OF t [unfolded Rejected]] .
    have r1: "replay EXECUTING (map kind (events (attempt P caps ctx r input instr (Suc n)))) =
                Some (tl (states (attempt P caps ctx r input instr (Suc n))))"
      using rp Rejected ih1 ss
      by (simp add: eq preceded_def replay_append on_event_def)
    have r2: "linear_path (states (attempt P caps ctx r input instr (Suc n)))"
      using ih4 ss by (simp add: eq preceded_def transitions_def)
    have r3: "filter terminal (events (attempt P caps ctx r input instr (Suc n))) =
                [last (events (attempt P caps ctx r input instr (Suc n)))]"
      using nt ih6 ih7 by (simp add: eq preceded_def terminal_simps)
    show ?thesis
      using r1 r2 r3 ih5 ih3 ih6 by (simp add: eq preceded_def)
  qed
qed


lemma attempt_counts:
  "count_list (states (attempt P caps ctx r input instr b)) EXECUTING \<le> Suc b \<and>
   count_list (states (attempt P caps ctx r input instr b)) VALIDATING \<le> Suc b \<and>
   count_list (states (attempt P caps ctx r input instr b)) RETRYING \<le> b \<and>
   count_list (states (attempt P caps ctx r input instr b)) STARTED = 0 \<and>
   count_list (states (attempt P caps ctx r input instr b)) CLASSIFYING = 0 \<and>
   count_list (states (attempt P caps ctx r input instr b)) DELEGATING = 0 \<and>
   count_list (states (attempt P caps ctx r input instr b)) ACCEPTED +
     count_list (states (attempt P caps ctx r input instr b)) FAILED = 1 \<and>
   count_list (states (attempt P caps ctx r input instr b)) DONE = 1 \<and>
   length (invocations (attempt P caps ctx r input instr b)) =
     count_list (states (attempt P caps ctx r input instr b)) EXECUTING"
proof (induction b arbitrary: ctx instr)
  case 0
  obtain evs c res where t: "try_once P ctx r input instr (gated_view ctx caps) = (evs, c, res)"
    by (cases "try_once P ctx r input instr (gated_view ctx caps)") auto
  show ?case
  proof (cases res)
    case (Exec_failed f)
    show ?thesis by (simp add: attempt_exec_failed [OF t [unfolded Exec_failed]])
  next
    case Validation_error
    show ?thesis by (simp add: attempt_validation_error [OF t [unfolded Validation_error]])
  next
    case (Accepted cand)
    show ?thesis by (simp add: attempt_accepted [OF t [unfolded Accepted]])
  next
    case (Rejected why)
    show ?thesis by (simp add: attempt_exhausted [OF t [unfolded Rejected]])
  qed
next
  case (Suc n)
  obtain evs c res where t: "try_once P ctx r input instr (gated_view ctx caps) = (evs, c, res)"
    by (cases "try_once P ctx r input instr (gated_view ctx caps)") auto
  show ?case
  proof (cases res)
    case (Exec_failed f)
    show ?thesis by (simp add: attempt_exec_failed [OF t [unfolded Exec_failed]])
  next
    case Validation_error
    show ?thesis by (simp add: attempt_validation_error [OF t [unfolded Validation_error]])
  next
    case (Accepted cand)
    show ?thesis by (simp add: attempt_accepted [OF t [unfolded Accepted]])
  next
    case (Rejected why)
    show ?thesis
      using Suc.IH [of c "instr @ retry_note why"]
      by (simp add: attempt_retry [OF t [unfolded Rejected]] preceded_def)
  qed
qed

lemma rejected_walk:
  "replay STARTED (map kind (events (rejected f))) = Some (tl (states (rejected f))) \<and>
   hd (states (rejected f)) = STARTED \<and> last (states (rejected f)) = DONE \<and>
   linear_path (states (rejected f)) \<and>
   filter terminal (events (rejected f)) = [last (events (rejected f))] \<and>
   count_list (states (rejected f)) EXECUTING = 0 \<and>
   count_list (states (rejected f)) VALIDATING = 0 \<and>
   count_list (states (rejected f)) RETRYING = 0 \<and>
   count_list (states (rejected f)) STARTED = 1 \<and>
   count_list (states (rejected f)) CLASSIFYING = 1 \<and>
   count_list (states (rejected f)) DELEGATING = 0 \<and>
   count_list (states (rejected f)) ACCEPTED + count_list (states (rejected f)) FAILED = 1 \<and>
   count_list (states (rejected f)) DONE = 1 \<and>
   length (invocations (rejected f)) = count_list (states (rejected f)) EXECUTING"
  by (simp add: rejected_def on_event_def transitions_def terminal_simps)

lemma dispatched_walk:
  assumes d_def: "d = preceded [STARTED, CLASSIFYING, DELEGATING]
                   [Event request_started No_payload,
                    Event classification_result (Target target),
                    Event handoff (Target nm)] []
                   (attempt P caps ctx r input instr b)"
  shows "replay STARTED (map kind (events d)) = Some (tl (states d)) \<and>
   hd (states d) = STARTED \<and> last (states d) = DONE \<and>
   linear_path (states d) \<and>
   filter terminal (events d) = [last (events d)] \<and>
   count_list (states d) EXECUTING \<le> Suc b \<and>
   count_list (states d) VALIDATING \<le> Suc b \<and>
   count_list (states d) RETRYING \<le> b \<and>
   count_list (states d) STARTED = 1 \<and>
   count_list (states d) CLASSIFYING = 1 \<and>
   count_list (states d) DELEGATING = 1 \<and>
   count_list (states d) ACCEPTED + count_list (states d) FAILED = 1 \<and>
   count_list (states d) DONE = 1 \<and>
   length (invocations d) = count_list (states d) EXECUTING"
proof -
  let ?a = "attempt P caps ctx r input instr b"
  from attempt_walk [of P caps ctx r input instr b] have
    w1: "replay EXECUTING (map kind (events ?a)) = Some (tl (states ?a))" and
    w2: "hd (states ?a) = EXECUTING" and w3: "states ?a \<noteq> []" and
    w4: "linear_path (states ?a)" and w5: "last (states ?a) = DONE" and
    w6: "events ?a \<noteq> []" and w7: "filter terminal (events ?a) = [last (events ?a)]"
    by simp_all
  from w2 w3 obtain ss where ss: "states ?a = EXECUTING # ss" by (cases "states ?a") auto
  have p1: "replay STARTED (map kind (events d)) = Some (tl (states d))"
    using w1 ss by (simp add: d_def preceded_def on_event_def)
  have p2: "linear_path (states d)"
    using w4 ss by (simp add: d_def preceded_def transitions_def)
  have p3: "filter terminal (events d) = [last (events d)]"
    using w6 w7 by (simp add: d_def preceded_def terminal_simps)
  have p4: "last (states d) = DONE" "hd (states d) = STARTED"
    using w5 w3 by (simp_all add: d_def preceded_def)
  show ?thesis
    using p1 p2 p3 p4 attempt_counts [of P caps ctx r input instr b]
    by (simp add: d_def preceded_def)
qed

lemma controller_cases:
  "(\<exists>f. controller P budget router msg ctx tools = rejected f) \<or>
   (\<exists>target r cat. controller P budget router msg ctx tools =
      preceded [STARTED, CLASSIFYING, DELEGATING]
        [Event request_started No_payload,
         Event classification_result (Target target),
         Event handoff (Target (agent_name r))] []
        (attempt P (declared_capabilities r @ tools) (ctx\<lparr>issue_type := Some cat\<rparr>)
           r msg (instructions r) budget) \<and> resolve router target = Some r)"
  by (auto simp: controller_def split: sum.splits provider_reply.splits structured_output.splits
      list.splits option.splits)


text \<open>The walk of a whole request, from STARTED to DONE.\<close>

lemma controller_walk:
  "replay STARTED (map kind (events (controller P budget router msg ctx tools))) =
     Some (tl (states (controller P budget router msg ctx tools))) \<and>
   hd (states (controller P budget router msg ctx tools)) = STARTED \<and>
   last (states (controller P budget router msg ctx tools)) = DONE \<and>
   linear_path (states (controller P budget router msg ctx tools)) \<and>
   filter terminal (events (controller P budget router msg ctx tools)) =
     [last (events (controller P budget router msg ctx tools))] \<and>
   count_list (states (controller P budget router msg ctx tools)) EXECUTING \<le> Suc budget \<and>
   count_list (states (controller P budget router msg ctx tools)) VALIDATING \<le> Suc budget \<and>
   count_list (states (controller P budget router msg ctx tools)) RETRYING \<le> budget \<and>
   count_list (states (controller P budget router msg ctx tools)) STARTED = 1 \<and>
   count_list (states (controller P budget router msg ctx tools)) CLASSIFYING = 1 \<and>
   count_list (states (controller P budget router msg ctx tools)) DELEGATING \<le> 1 \<and>
   count_list (states (controller P budget router msg ctx tools)) ACCEPTED +
     count_list (states (controller P budget router msg ctx tools)) FAILED = 1 \<and>
   count_list (states (controller P budget router msg ctx tools)) DONE = 1"
proof -
  from controller_cases [of P budget router msg ctx tools]
  show ?thesis
  proof
    assume "\<exists>f. controller P budget router msg ctx tools = rejected f"
    then obtain f where "controller P budget router msg ctx tools = rejected f" by blast
    with rejected_walk [of f] show ?thesis by simp
  next
    assume "\<exists>target r cat. controller P budget router msg ctx tools =
      preceded [STARTED, CLASSIFYING, DELEGATING]
        [Event request_started No_payload,
         Event classification_result (Target target),
         Event handoff (Target (agent_name r))] []
        (attempt P (declared_capabilities r @ tools) (ctx\<lparr>issue_type := Some cat\<rparr>)
           r msg (instructions r) budget) \<and> resolve router target = Some r"
    then obtain target r cat where d: "controller P budget router msg ctx tools =
      preceded [STARTED, CLASSIFYING, DELEGATING]
        [Event request_started No_payload,
         Event classification_result (Target target),
         Event handoff (Target (agent_name r))] []
        (attempt P (declared_capabilities r @ tools) (ctx\<lparr>issue_type := Some cat\<rparr>)
           r msg (instructions r) budget)" by blast
    from dispatched_walk [OF d] show ?thesis by simp
  qed
qed

lemma request_prints_stream:
  "rs triage_agent m (c\<lparr>issue_type := None\<rparr>) \<lparr>stream = True\<rparr> main_tools = Inr res \<Longrightarrow>
     fst (request run rs c m) = Text triage_banner # map Event_line (stream_events res)"
  by (simp add: request_def Let_def split: prod.splits)

text \<open>
  Claim C9. For every request, the events the controller emits, read one by one from
  STARTED, walk exactly the states the controller entered: a path along the transitions
  of the state machine that ends in DONE. Exactly one event is terminal
  (\<open>request_accepted\<close> or \<open>request_failed\<close>) and it is the last one. STARTED, CLASSIFYING
  and DONE are entered once, DELEGATING at most once, exactly one of ACCEPTED and FAILED
  once; only EXECUTING, VALIDATING and RETRYING can recur, bounded by the retry budget.
  The caller sees these events as \<^verbatim>\<open>main\<close> prints them: every event of the stream, in
  stream order.
\<close>

theorem events_walk_state_machine:
  "(rs triage_agent m (c\<lparr>issue_type := None\<rparr>) \<lparr>stream = True\<rparr> main_tools = Inr res \<longrightarrow>
      fst (request run rs c m) = Text triage_banner # map Event_line (stream_events res)) \<and>
   replay STARTED (map kind (events (controller P budget router msg ctx tools))) =
     Some (tl (states (controller P budget router msg ctx tools))) \<and>
   hd (states (controller P budget router msg ctx tools)) = STARTED \<and>
   last (states (controller P budget router msg ctx tools)) = DONE \<and>
   linear_path (states (controller P budget router msg ctx tools)) \<and>
   filter terminal (events (controller P budget router msg ctx tools)) =
     [last (events (controller P budget router msg ctx tools))] \<and>
   count_list (states (controller P budget router msg ctx tools)) EXECUTING \<le> Suc budget \<and>
   count_list (states (controller P budget router msg ctx tools)) VALIDATING \<le> Suc budget \<and>
   count_list (states (controller P budget router msg ctx tools)) RETRYING \<le> budget \<and>
   count_list (states (controller P budget router msg ctx tools)) STARTED = 1 \<and>
   count_list (states (controller P budget router msg ctx tools)) CLASSIFYING = 1 \<and>
   count_list (states (controller P budget router msg ctx tools)) DELEGATING \<le> 1 \<and>
   count_list (states (controller P budget router msg ctx tools)) ACCEPTED +
     count_list (states (controller P budget router msg ctx tools)) FAILED = 1 \<and>
   count_list (states (controller P budget router msg ctx tools)) DONE = 1"
proof (rule conjI)
  show "rs triage_agent m (c\<lparr>issue_type := None\<rparr>) \<lparr>stream = True\<rparr> main_tools = Inr res \<longrightarrow>
      fst (request run rs c m) = Text triage_banner # map Event_line (stream_events res)"
    by (rule impI) (rule request_prints_stream)
qed (rule controller_walk)

lemma scripted_try:
  "try_once (scripted_provider b) ctx billing_agent msg (instructions billing_agent @ extra) view =
     ([Event candidate_produced No_payload,
       Event guardrail_result (Verdict (\<not> b) ''looked for an apology'')], ctx,
      if b then Rejected ''looked for an apology'' else Accepted \<lparr>response = ''Your invoice is attached.''\<rparr>)"
  by (simp add: try_once_def execute_def scripted_provider_def conforming_def billing_agent_def
      triage_agent_def apology_guardrail_agent_def no_apology_guardrail_def run_of_def passed_def
      verdict_event_def failure_reason_def)

lemma scripted_accept:
  "controller (scripted_provider False) (Suc 0) triage_agent ''invoice?'' bo main_tools =
     \<lparr>states = [STARTED, CLASSIFYING, DELEGATING, EXECUTING, VALIDATING, ACCEPTED, DONE],
      events = [Event request_started No_payload,
                Event classification_result (Target ''Billing Agent''),
                Event handoff (Target ''Billing Agent''),
                Event candidate_produced No_payload,
                Event guardrail_result (Verdict True ''looked for an apology''),
                Event request_accepted No_payload],
      invocations = [(''Billing Agent'', instructions billing_agent,
                      [General_info])],
      result = Inr \<lparr>response = ''Your invoice is attached.''\<rparr>\<rparr>"
proof -
  have r: "resolve triage_agent ''Billing Agent'' = Some billing_agent"
    by (simp add: resolve_def triage_agent_def billing_agent_def)
  have i: "invoke (scripted_provider False) (instructions triage_agent) ''invoice?'' bo [] =
             Inr (Structured (Decision [''Billing Agent''] (Some ''billing'')))"
    by (simp add: scripted_provider_def)
  have v: "gated_view (bo\<lparr>issue_type := Some ''billing''\<rparr>) main_tools = [General_info]"
    by (simp add: gated_view_def main_tools_def bo_def)
  have n: "agent_name billing_agent = ''Billing Agent''" by (simp add: billing_agent_def)
  show ?thesis
    using scripted_try [of False "bo\<lparr>issue_type := Some ''billing''\<rparr>" "''invoice?''" "[]" "[General_info]"]
    by (simp add: controller_def i r categories_def declared_capabilities_def v n
        attempt.simps [of _ _ _ _ _ _ "Suc 0"] preceded_def)
qed


lemma bo_reset: "bo\<lparr>issue_type := None\<rparr> = bo"
  by (simp add: bo_def)

theorem events_walk_state_machine_witness:
  "streamed_by (scripted_provider False) (Suc 0) triage_agent ''invoice?'' (bo\<lparr>issue_type := None\<rparr>)
     \<lparr>stream = True\<rparr> main_tools =
     Inr \<lparr>callbacks = [],
          stream_events = [Event request_started No_payload,
                Event classification_result (Target ''Billing Agent''),
                Event handoff (Target ''Billing Agent''),
                Event candidate_produced No_payload,
                Event guardrail_result (Verdict True ''looked for an apology''),
                Event request_accepted No_payload],
          raised = None\<rparr> \<and>
   fst (request demo_run (streamed_by (scripted_provider False) (Suc 0)) bo ''invoice?'') =
     [Text triage_banner,
      Event_line (Event request_started No_payload),
      Event_line (Event classification_result (Target ''Billing Agent'')),
      Event_line (Event handoff (Target ''Billing Agent'')),
      Event_line (Event candidate_produced No_payload),
      Event_line (Event guardrail_result (Verdict True ''looked for an apology'')),
      Event_line (Event request_accepted No_payload)] \<and>
   replay STARTED [request_started, classification_result, handoff, candidate_produced,
      guardrail_result, request_accepted] =
     Some [CLASSIFYING, DELEGATING, EXECUTING, VALIDATING, ACCEPTED, DONE]"
proof -
  let ?evs = "[Event request_started No_payload,
                Event classification_result (Target ''Billing Agent''),
                Event handoff (Target ''Billing Agent''),
                Event candidate_produced No_payload,
                Event guardrail_result (Verdict True ''looked for an apology''),
                Event request_accepted No_payload]"
  let ?res = "\<lparr>callbacks = [], stream_events = ?evs, raised = None\<rparr>"
  let ?c = "controller (scripted_provider False) (Suc 0) triage_agent ''invoice?'' bo main_tools"
  note T = events_walk_state_machine [of "streamed_by (scripted_provider False) (Suc 0)"
      "''invoice?''" bo ?res demo_run "scripted_provider False" "Suc 0" triage_agent
      "''invoice?''" bo main_tools]
  have ev: "events ?c = ?evs" by (simp only: scripted_accept run_record.simps)
  have st: "states ?c = [STARTED, CLASSIFYING, DELEGATING, EXECUTING, VALIDATING, ACCEPTED, DONE]"
    by (simp only: scripted_accept run_record.simps)
  have s: "streamed_by (scripted_provider False) (Suc 0) triage_agent ''invoice?''
             (bo\<lparr>issue_type := None\<rparr>) \<lparr>stream = True\<rparr> main_tools = Inr ?res"
    by (simp only: streamed_by_def bo_reset ev)
  from T [THEN conjunct1] s have pr:
    "fst (request demo_run (streamed_by (scripted_provider False) (Suc 0)) bo ''invoice?'') =
       Text triage_banner # map Event_line (stream_events ?res)"
    by (rule mp)
  from T [THEN conjunct2, THEN conjunct1] have rp:
    "replay STARTED (map kind ?evs) =
       Some (tl [STARTED, CLASSIFYING, DELEGATING, EXECUTING, VALIDATING, ACCEPTED, DONE])"
    by (simp only: ev st)
  from s pr rp show ?thesis by simp
qed

lemma agent_names:
  "agent_name billing_agent = ''Billing Agent''"
  "agent_name technical_agent = ''Technical Agent''"
  "agent_name general_agent = ''General Agent''"
  by (simp_all add: billing_agent_def technical_agent_def general_agent_def)

lemma agent_guardrails:
  "output_guardrails triage_agent = [No_apology_guardrail]"
  "output_guardrails billing_agent = [No_apology_guardrail]"
  "output_guardrails technical_agent = [No_apology_guardrail]"
  "output_guardrails general_agent = [No_apology_guardrail]"
  by (simp_all add: triage_agent_def billing_agent_def technical_agent_def general_agent_def)

lemma handoffs_triage: "handoffs triage_agent = [billing_agent, technical_agent, general_agent]"
  by (simp add: triage_agent_def)

lemma handoff_targets:
  assumes "r \<in> set (handoffs triage_agent)"
  shows "resolve triage_agent (agent_name r) = Some r \<and>
         output_guardrails r = [No_apology_guardrail]"
proof -
  from assms consider "r = billing_agent" | "r = technical_agent" | "r = general_agent"
    by (auto simp only: handoffs_triage set_simps insert_iff empty_iff)
  then show ?thesis
  proof cases
    case 1
    then show ?thesis by (simp add: resolve_def handoffs_triage agent_names agent_guardrails)
  next
    case 2
    then show ?thesis by (simp add: resolve_def handoffs_triage agent_names agent_guardrails)
  next
    case 3
    then show ?thesis by (simp add: resolve_def handoffs_triage agent_names agent_guardrails)
  qed
qed







lemma validate_passed_length:
  "validate run ctx a out gs = Inr vs \<Longrightarrow> list_all passed vs \<Longrightarrow> length vs = length gs"
proof (induction gs arbitrary: vs)
  case Nil
  then show ?case by simp
next
  case (Cons g gs)
  then show ?case by (auto split: sum.splits if_splits)
qed

lemma try_once_accepted:
  "try_once P ctx r input instr view = (evs, c, Accepted cand) \<Longrightarrow>
     \<exists>vs. validate (run_of P) c r cand (output_guardrails r) = Inr vs \<and> list_all passed vs"
  by (auto simp: try_once_def split: prod.splits sum.splits if_splits)

lemma attempt_result_validated:
  "result (attempt P caps ctx r input instr b) = Inr ans \<Longrightarrow>
     \<exists>c vs. validate (run_of P) c r ans (output_guardrails r) = Inr vs \<and> list_all passed vs"
proof (induction b arbitrary: ctx instr)
  case 0
  obtain evs c res where t: "try_once P ctx r input instr (gated_view ctx caps) = (evs, c, res)"
    by (cases "try_once P ctx r input instr (gated_view ctx caps)") auto
  show ?case
  proof (cases res)
    case (Exec_failed f)
    with "0.prems" show ?thesis by (simp add: attempt_exec_failed [OF t [unfolded Exec_failed]])
  next
    case Validation_error
    with "0.prems" show ?thesis
      by (simp add: attempt_validation_error [OF t [unfolded Validation_error]])
  next
    case (Accepted cand)
    with "0.prems" have "cand = ans" by (simp add: attempt_accepted [OF t [unfolded Accepted]])
    with try_once_accepted [OF t [unfolded Accepted]] show ?thesis by blast
  next
    case (Rejected why)
    with "0.prems" show ?thesis by (simp add: attempt_exhausted [OF t [unfolded Rejected]])
  qed
next
  case (Suc n)
  obtain evs c res where t: "try_once P ctx r input instr (gated_view ctx caps) = (evs, c, res)"
    by (cases "try_once P ctx r input instr (gated_view ctx caps)") auto
  show ?case
  proof (cases res)
    case (Exec_failed f)
    with Suc.prems show ?thesis by (simp add: attempt_exec_failed [OF t [unfolded Exec_failed]])
  next
    case Validation_error
    with Suc.prems show ?thesis
      by (simp add: attempt_validation_error [OF t [unfolded Validation_error]])
  next
    case (Accepted cand)
    with Suc.prems have "cand = ans" by (simp add: attempt_accepted [OF t [unfolded Accepted]])
    with try_once_accepted [OF t [unfolded Accepted]] show ?thesis by blast
  next
    case (Rejected why)
    with Suc.prems have "result (attempt P caps c r input (instr @ retry_note why) n) = Inr ans"
      by (simp add: attempt_retry [OF t [unfolded Rejected]] preceded_def)
    then show ?thesis by (rule Suc.IH)
  qed
qed

lemma single_guardrail_passed:
  assumes "validate run c r ans [No_apology_guardrail] = Inr vs" and "list_all passed vs"
  shows "\<exists>chk. run apology_guardrail_agent (response ans) c = Inr chk \<and> \<not> has_apology chk"
  using assms
  by (auto simp: no_apology_guardrail_def passed_def split: sum.splits if_splits)

text \<open>
  Claim C7. An answer becomes the result of a request only after every guardrail in the
  guardrail list of the responder that produced it has been evaluated on it and has
  passed: the apology classification of the answer returned without an apology. Every
  agent of the program, the triage agent included, lists the no-apology guardrail.
\<close>

theorem accepted_answer_passed_guardrails:
  "(result (controller P budget triage_agent msg ctx tools) = Inr ans \<longrightarrow>
      (\<exists>r c vs chk. r \<in> set (handoffs triage_agent) \<and>
         validate (run_of P) c r ans (output_guardrails r) = Inr vs \<and>
         length vs = length (output_guardrails r) \<and> list_all passed vs \<and>
         run_of P apology_guardrail_agent (response ans) c = Inr chk \<and> \<not> has_apology chk)) \<and>
   map output_guardrails [triage_agent, billing_agent, technical_agent, general_agent] =
     [[No_apology_guardrail], [No_apology_guardrail], [No_apology_guardrail],
      [No_apology_guardrail]]"
proof (intro conjI impI)
  assume acc: "result (controller P budget triage_agent msg ctx tools) = Inr ans"
  from controller_cases [of P budget triage_agent msg ctx tools]
  show "\<exists>r c vs chk. r \<in> set (handoffs triage_agent) \<and>
         validate (run_of P) c r ans (output_guardrails r) = Inr vs \<and>
         length vs = length (output_guardrails r) \<and> list_all passed vs \<and>
         run_of P apology_guardrail_agent (response ans) c = Inr chk \<and> \<not> has_apology chk"
  proof
    assume "\<exists>f. controller P budget triage_agent msg ctx tools = rejected f"
    with acc show ?thesis by (auto simp: rejected_def)
  next
    assume "\<exists>target r cat. controller P budget triage_agent msg ctx tools =
      preceded [STARTED, CLASSIFYING, DELEGATING]
        [Event request_started No_payload,
         Event classification_result (Target target),
         Event handoff (Target (agent_name r))] []
        (attempt P (declared_capabilities r @ tools) (ctx\<lparr>issue_type := Some cat\<rparr>)
           r msg (instructions r) budget) \<and> resolve triage_agent target = Some r"
    then obtain target r cat where d: "controller P budget triage_agent msg ctx tools =
      preceded [STARTED, CLASSIFYING, DELEGATING]
        [Event request_started No_payload,
         Event classification_result (Target target),
         Event handoff (Target (agent_name r))] []
        (attempt P (declared_capabilities r @ tools) (ctx\<lparr>issue_type := Some cat\<rparr>)
           r msg (instructions r) budget)"
      and rs: "resolve triage_agent target = Some r" by blast
    from rs have mem: "r \<in> set (handoffs triage_agent)"
      by (auto simp: resolve_def find_Some_iff)
    from handoff_targets [OF mem] have g: "output_guardrails r = [No_apology_guardrail]" by simp
    from acc d have "result (attempt P (declared_capabilities r @ tools)
        (ctx\<lparr>issue_type := Some cat\<rparr>) r msg (instructions r) budget) = Inr ans"
      by (simp add: preceded_def)
    from attempt_result_validated [OF this] obtain c vs where
      v: "validate (run_of P) c r ans (output_guardrails r) = Inr vs" and p: "list_all passed vs"
      by blast
    from validate_passed_length [OF v p] have l: "length vs = length (output_guardrails r)" .
    from single_guardrail_passed [OF v [unfolded g] p] obtain chk where
      "run_of P apology_guardrail_agent (response ans) c = Inr chk" "\<not> has_apology chk" by blast
    with mem v l p show ?thesis by blast
  qed
next
  show "map output_guardrails [triage_agent, billing_agent, technical_agent, general_agent] =
     [[No_apology_guardrail], [No_apology_guardrail], [No_apology_guardrail],
      [No_apology_guardrail]]"
    by (simp add: agent_guardrails)
qed

theorem accepted_answer_passed_guardrails_witness:
  "result (controller (scripted_provider False) (Suc 0) triage_agent ''invoice?'' bo main_tools) =
     Inr \<lparr>response = ''Your invoice is attached.''\<rparr> \<and>
   (\<exists>r c vs chk. r \<in> set (handoffs triage_agent) \<and>
      validate (run_of (scripted_provider False)) c r \<lparr>response = ''Your invoice is attached.''\<rparr>
        (output_guardrails r) = Inr vs \<and>
      length vs = length (output_guardrails r) \<and> list_all passed vs \<and>
      run_of (scripted_provider False) apology_guardrail_agent
        (response \<lparr>response = ''Your invoice is attached.''\<rparr>) c = Inr chk \<and> \<not> has_apology chk)"
proof -
  have r: "result (controller (scripted_provider False) (Suc 0) triage_agent ''invoice?'' bo
             main_tools) = Inr \<lparr>response = ''Your invoice is attached.''\<rparr>"
    by (simp add: scripted_accept)
  from accepted_answer_passed_guardrails [of "scripted_provider False" "Suc 0" "''invoice?''" bo
      main_tools "\<lparr>response = ''Your invoice is attached.''\<rparr>", THEN conjunct1] r
  have "\<exists>r c vs chk. r \<in> set (handoffs triage_agent) \<and>
      validate (run_of (scripted_provider False)) c r \<lparr>response = ''Your invoice is attached.''\<rparr>
        (output_guardrails r) = Inr vs \<and>
      length vs = length (output_guardrails r) \<and> list_all passed vs \<and>
      run_of (scripted_provider False) apology_guardrail_agent
        (response \<lparr>response = ''Your invoice is attached.''\<rparr>) c = Inr chk \<and> \<not> has_apology chk"
    by (rule mp)
  with r show ?thesis by (rule conjI)
qed

end
